theory Spec2Isabelle
  imports Complex_Main
begin

section \<open>Numeric values of the monitor\<close>

text \<open>
  The levels handled by \<^verbatim>\<open>noise_monitor.py\<close> and \<^verbatim>\<open>noise_monitor_gui.py\<close> are Python
  floats.  They are embedded as real numbers extended by the two special values the
  code can produce: \<open>-inf\<close> (returned by \<^verbatim>\<open>amplitude_to_db\<close>) and \<open>nan\<close> (the mean of
  an empty array).  The levels themselves are taken as exact reals.  Where the code turns
  a float into an integer, so that the rounding of the binary representation can decide
  the result, the arithmetic is rounded to binary64 as Python does it.
\<close>

datatype pyfloat = NaN | NegInf | Fin real

text \<open>Comparisons of a float with a finite number: every comparison with \<open>nan\<close> is false.\<close>

fun float_gt :: "pyfloat \<Rightarrow> real \<Rightarrow> bool" where
  "float_gt NaN t = False"
| "float_gt NegInf t = False"
| "float_gt (Fin x) t = (x > t)"

fun float_le :: "pyfloat \<Rightarrow> real \<Rightarrow> bool" where
  "float_le NaN t = False"
| "float_le NegInf t = True"
| "float_le (Fin x) t = (x \<le> t)"

fun float_add :: "pyfloat \<Rightarrow> real \<Rightarrow> pyfloat" where
  "float_add NaN r = NaN"
| "float_add NegInf r = NegInf"
| "float_add (Fin x) r = Fin (x + r)"

fun float_mult :: "real \<Rightarrow> pyfloat \<Rightarrow> pyfloat" where
  "float_mult k NaN = NaN"
| "float_mult k NegInf = (if k > 0 then NegInf else NaN)"
| "float_mult k (Fin x) = Fin (k * x)"

fun float_div :: "pyfloat \<Rightarrow> real \<Rightarrow> pyfloat" where
  "float_div NaN r = NaN"
| "float_div NegInf r = (if r > 0 then NegInf else NaN)"
| "float_div (Fin x) r = Fin (x / r)"

text \<open>\<^verbatim>\<open>np.mean\<close>: the mean of an empty array is \<open>nan\<close> (a warning, no exception).\<close>

definition np_mean :: "real list \<Rightarrow> pyfloat" where
  "np_mean xs = (if xs = [] then NaN else Fin (sum_list xs / real (length xs)))"

fun np_sqrt :: "pyfloat \<Rightarrow> pyfloat" where
  "np_sqrt NaN = NaN"
| "np_sqrt NegInf = NaN"
| "np_sqrt (Fin x) = (if x < 0 then NaN else Fin (sqrt x))"

fun np_log10 :: "pyfloat \<Rightarrow> pyfloat" where
  "np_log10 NaN = NaN"
| "np_log10 NegInf = NaN"
| "np_log10 (Fin x) = (if x > 0 then Fin (log 10 x) else if x = 0 then NegInf else NaN)"

text \<open>
  Rounding to binary64: to the nearest number with a significand of 53 bits, a tie going
  to the even significand.  The exponent is not bounded: overflow and subnormal numbers
  do not occur where the rounding is used.
\<close>

definition round_even :: "real \<Rightarrow> int" where
  "round_even t =
     (let f = \<lfloor>t\<rfloor>
      in if t - real_of_int f < 1 / 2 then f
         else if t - real_of_int f > 1 / 2 then f + 1
         else if even f then f else f + 1)"

definition binary64 :: "real \<Rightarrow> real" where
  "binary64 x =
     (if x = 0 then 0
      else (let ulp = 2 powr (real_of_int \<lfloor>log 2 \<bar>x\<bar>\<rfloor> - 52)
            in real_of_int (round_even (x / ulp)) * ulp))"

text \<open>
  A recording is a numpy array: one-dimensional, or two-dimensional with one row per
  frame and one column per channel (what \<^verbatim>\<open>sd.rec\<close> returns).
\<close>

datatype ndarray = Array1 "real list" | Array2 "real list list"

fun rows_of :: "ndarray \<Rightarrow> real list list" where
  "rows_of (Array1 d) = map (\<lambda>x. [x]) d"
| "rows_of (Array2 rows) = rows"

section \<open>Level computation of the command-line monitor\<close>

text \<open>
  \<^verbatim>\<open>amplitude_to_db(amplitude, reference=1.0)\<close>:
  \<^verbatim>\<open>if amplitude <= 0: return -float('inf')\<close>, otherwise
  \<^verbatim>\<open>20 * np.log10(amplitude / reference)\<close>.
\<close>

definition amplitude_to_db :: "pyfloat \<Rightarrow> real \<Rightarrow> pyfloat" where
  "amplitude_to_db amplitude reference =
     (if float_le amplitude 0 then NegInf
      else float_mult 20 (np_log10 (float_div amplitude reference)))"

text \<open>
  \<^verbatim>\<open>get_noise_level(data)\<close>: a multi-channel block is averaged to mono
  (\<^verbatim>\<open>np.mean(data, axis=1)\<close>), then \<^verbatim>\<open>rms = np.sqrt(np.mean(data**2))\<close> and
  \<^verbatim>\<open>amplitude_to_db(rms)\<close>.  The mean of a row without channels is \<open>nan\<close>, and a
  \<open>nan\<close> among the samples makes the mean of the squares \<open>nan\<close>.
\<close>

definition mean_axis1 :: "real list list \<Rightarrow> pyfloat list" where
  "mean_axis1 rows = map np_mean rows"

fun to_mono :: "ndarray \<Rightarrow> pyfloat list" where
  "to_mono (Array1 d) = map Fin d"
| "to_mono (Array2 rows) = mean_axis1 rows"

text \<open>The samples as reals when each of them is a finite number.\<close>

fun finite_values :: "pyfloat list \<Rightarrow> real list option" where
  "finite_values [] = Some []"
| "finite_values (Fin x # xs) = map_option (Cons x) (finite_values xs)"
| "finite_values (y # xs) = None"

definition get_noise_level :: "ndarray \<Rightarrow> pyfloat" where
  "get_noise_level data =
     (let mono = to_mono data;
          rms = np_sqrt (case finite_values mono of
                           None \<Rightarrow> NaN
                         | Some samples \<Rightarrow> np_mean (map (\<lambda>x. x\<^sup>2) samples))
      in amplitude_to_db rms 1)"

section \<open>Sub-chunk analysis of the window application\<close>

definition DEFAULT_THRESHOLD :: int where "DEFAULT_THRESHOLD = 30"
definition DEFAULT_SPIKE_DURATION :: int where "DEFAULT_SPIKE_DURATION = 500"
definition SAMPLE_RATE :: int where "SAMPLE_RATE = 44100"
definition CHUNK_DURATION :: real where "CHUNK_DURATION = binary64 (1 / 10)"
definition ALERT_COOLDOWN :: real where "ALERT_COOLDOWN = 600"

text \<open>Python's \<^verbatim>\<open>int(x)\<close> on a float truncates towards zero.\<close>

definition py_int :: "real \<Rightarrow> int" where
  "py_int x = (if 0 \<le> x then \<lfloor>x\<rfloor> else \<lceil>x\<rceil>)"

text \<open>\<^verbatim>\<open>chunk_size = int(SAMPLE_RATE * CHUNK_DURATION)\<close>\<close>

definition chunk_size :: nat where
  "chunk_size = nat (py_int (binary64 (real_of_int SAMPLE_RATE * CHUNK_DURATION)))"

text \<open>
  \<^verbatim>\<open>np.array_split(ary, n)\<close> raises \<^verbatim>\<open>ValueError\<close> for \<open>n = 0\<close>; otherwise it cuts the
  rows into \<open>n\<close> consecutive sections, the first \<open>len mod n\<close> of size \<open>len div n + 1\<close>
  and the others of size \<open>len div n\<close>.
\<close>

fun chop :: "nat list \<Rightarrow> 'a list \<Rightarrow> 'a list list" where
  "chop [] xs = []"
| "chop (k # ks) xs = take k xs # chop ks (drop k xs)"

definition section_sizes :: "nat \<Rightarrow> nat \<Rightarrow> nat list" where
  "section_sizes l n = replicate (l mod n) (l div n + 1) @ replicate (n - l mod n) (l div n)"

definition array_split :: "'a list \<Rightarrow> nat \<Rightarrow> 'a list list option" where
  "array_split ary n = (if n = 0 then None else Some (chop (section_sizes (length ary) n) ary))"

text \<open>\<^verbatim>\<open>rms = np.sqrt(np.mean(chunk**2))\<close>, over all entries of the chunk.\<close>

definition chunk_rms :: "real list list \<Rightarrow> pyfloat" where
  "chunk_rms chunk = np_sqrt (np_mean (map (\<lambda>x. x\<^sup>2) (concat chunk)))"

text \<open>
  The loop over the chunks:
  \<^verbatim>\<open>if rms > 0: db = 20 * np.log10(rms) + 90; db_levels.append(db)\<close>.
  A chunk whose RMS is not positive adds nothing to \<^verbatim>\<open>db_levels\<close>.
\<close>

fun db_levels_loop :: "real list list list \<Rightarrow> real list" where
  "db_levels_loop [] = []"
| "db_levels_loop (chunk # chunks) =
     (case chunk_rms chunk of
        Fin rms \<Rightarrow> (if rms > 0 then (20 * log 10 rms + 90) # db_levels_loop chunks
                    else db_levels_loop chunks)
      | _ \<Rightarrow> db_levels_loop chunks)"

text \<open>
  \<^verbatim>\<open>if db_levels: avg_db = np.mean(db_levels); max_db = np.max(db_levels);
  min_db = np.min(db_levels)\<close>.  Nothing is computed for an empty \<^verbatim>\<open>db_levels\<close>.
\<close>

definition aggregate :: "real list \<Rightarrow> (real \<times> real \<times> real) option" where
  "aggregate db_levels =
     (case db_levels of
        [] \<Rightarrow> None
      | x # xs \<Rightarrow> Some (sum_list db_levels / real (length db_levels), fold max xs x, fold min xs x))"

text \<open>
  \<^verbatim>\<open>required_chunks = int(spike_duration_ms / (CHUNK_DURATION * 1000))\<close>: the product is
  a float, the integer is converted to a float and the quotient is a float again.
\<close>

definition required_chunks :: "int \<Rightarrow> int" where
  "required_chunks spike_duration_ms =
     py_int (binary64 (binary64 (real_of_int spike_duration_ms)
                        / binary64 (CHUNK_DURATION * 1000)))"

text \<open>
  The alert decision of \<^verbatim>\<open>record_audio\<close>: with \<^verbatim>\<open>filter_micro_lags\<close> set,
  \<^verbatim>\<open>high_chunks = sum(1 for db in db_levels if db > threshold)\<close> and
  \<^verbatim>\<open>should_alert = high_chunks >= required_chunks\<close>; otherwise
  \<^verbatim>\<open>should_alert = max_db > threshold\<close>.
\<close>

definition high_chunks :: "int \<Rightarrow> real list \<Rightarrow> int" where
  "high_chunks threshold db_levels =
     int (length (filter (\<lambda>db. db > real_of_int threshold) db_levels))"

definition should_alert :: "bool \<Rightarrow> int \<Rightarrow> int \<Rightarrow> real list \<Rightarrow> real \<Rightarrow> bool" where
  "should_alert filter_micro_lags spike_duration_ms threshold db_levels max_db =
     (if filter_micro_lags
      then high_chunks threshold db_levels \<ge> required_chunks spike_duration_ms
      else max_db > real_of_int threshold)"

text \<open>
  The level of one sub-chunk in dB SPL as a float, silence being \<open>-inf\<close>: the conversion
  of \<^verbatim>\<open>amplitude_to_db\<close> with the offset of 90 dB that both programs add.
\<close>

definition chunk_spl :: "real list list \<Rightarrow> pyfloat" where
  "chunk_spl chunk = float_add (amplitude_to_db (chunk_rms chunk) 1) 90"

text \<open>The number of sub-chunks of a block whose level in dB SPL exceeds the threshold.\<close>

definition loud_chunks :: "int \<Rightarrow> real list list list \<Rightarrow> int" where
  "loud_chunks thr chunks =
     int (length (filter (\<lambda>chunk. float_gt (chunk_spl chunk) (real_of_int thr)) chunks))"

text \<open>
  The minimum as the specification words it, for comparison with \<open>aggregate\<close>: taken over
  the levels of all sub-chunks, silent ones included, \<open>-inf\<close> being lower than anything.
\<close>

fun float_min :: "pyfloat \<Rightarrow> pyfloat \<Rightarrow> pyfloat" where
  "float_min NaN y = NaN"
| "float_min x NaN = NaN"
| "float_min NegInf y = NegInf"
| "float_min x NegInf = NegInf"
| "float_min (Fin a) (Fin b) = Fin (min a b)"

definition spec_min_level :: "real list list list \<Rightarrow> pyfloat option" where
  "spec_min_level chunks =
     (case map chunk_spl chunks of [] \<Rightarrow> None | l # ls \<Rightarrow> Some (fold float_min ls l))"

section \<open>Files and network calls\<close>

text \<open>
  The disk is the set of names of the files that exist.  A call of \<^verbatim>\<open>requests.post\<close>
  either raises (no connection) or returns a response with a status code.  Every
  operation on files and on the network is recorded in a trace, in the order in which the
  code performs it.  Writing a file (\<^verbatim>\<open>sf.write\<close>) is taken to succeed.
\<close>

datatype http = ConnectionError | Status nat

datatype io = WriteFile string | ReadFile string | PostMessage | PostAudio string
  | RemoveFile string | LogError

datatype outcome = Raised | Returned



text \<open>\<^verbatim>\<open>path.replace('.wav', '.ogg')\<close>: every occurrence, from left to right.\<close>

fun replace_ext :: "string \<Rightarrow> string" where
  "replace_ext (a # b # c # d # rest) =
     (if [a, b, c, d] = ''.wav'' then ''.ogg'' @ replace_ext rest
      else a # replace_ext (b # c # d # rest))"
| "replace_ext s = s"

text \<open>\<^verbatim>\<open>os.remove(path)\<close> raises when the file does not exist.\<close>

definition os_remove :: "string \<Rightarrow> string set \<Rightarrow> string set option" where
  "os_remove path disk = (if path \<in> disk then Some (disk - {path}) else None)"

text \<open>
  The two calls \<^verbatim>\<open>os.remove(wav); os.remove(ogg)\<close> in sequence; the result says
  whether one of them raised.
\<close>

definition remove_both :: "string \<Rightarrow> string \<Rightarrow> string set \<Rightarrow> outcome \<times> string set \<times> io list" where
  "remove_both wav ogg disk =
     (case os_remove wav disk of
        None \<Rightarrow> (Raised, disk, [RemoveFile wav])
      | Some disk1 \<Rightarrow>
          (case os_remove ogg disk1 of
             None \<Rightarrow> (Raised, disk1, [RemoveFile wav, RemoveFile ogg])
           | Some disk2 \<Rightarrow> (Returned, disk2, [RemoveFile wav, RemoveFile ogg])))"

subsection \<open>\<^verbatim>\<open>send_telegram_alert\<close> of the command-line monitor\<close>

text \<open>
  The part under \<^verbatim>\<open>if audio_file_path:\<close>: the recording is read and written again as
  \<^verbatim>\<open>.ogg\<close>, the \<^verbatim>\<open>.ogg\<close> file is posted, and under
  \<^verbatim>\<open>if response.status_code == 200:\<close> both files are removed.
\<close>

definition send_audio :: "http \<Rightarrow> string \<Rightarrow> string set \<Rightarrow> outcome \<times> string set \<times> io list" where
  "send_audio audio_post audio_file_path disk =
     (let ogg_file_path = replace_ext audio_file_path
      in if audio_file_path \<notin> disk then (Raised, disk, [ReadFile audio_file_path])
         else
           (let disk1 = insert ogg_file_path disk;
                tr = [ReadFile audio_file_path, WriteFile ogg_file_path, PostAudio ogg_file_path]
            in case audio_post of
                 ConnectionError \<Rightarrow> (Raised, disk1, tr)
               | Status code \<Rightarrow>
                   (if code = 200
                    then (case remove_both audio_file_path ogg_file_path disk1 of
                            (r, disk2, tr2) \<Rightarrow> (r, disk2, tr @ tr2))
                    else (Returned, disk1, tr))))"

text \<open>
  \<^verbatim>\<open>send_telegram_alert(message, audio_file_path=None)\<close>: the text is posted first (its
  status is only printed), then the audio part runs when a non-empty path is given.
\<close>

definition send_telegram_alert ::
  "http \<Rightarrow> http \<Rightarrow> string option \<Rightarrow> string set \<Rightarrow> outcome \<times> string set \<times> io list" where
  "send_telegram_alert message_post audio_post audio_file_path disk =
     (case message_post of
        ConnectionError \<Rightarrow> (Raised, disk, [PostMessage])
      | Status code \<Rightarrow>
          (case audio_file_path of
             None \<Rightarrow> (Returned, disk, [PostMessage])
           | Some path \<Rightarrow>
               (if path = [] then (Returned, disk, [PostMessage])
                else (case send_audio audio_post path disk of
                        (r, disk1, tr) \<Rightarrow> (r, disk1, PostMessage # tr)))))"

subsection \<open>\<^verbatim>\<open>send_alert\<close> of the window application\<close>

text \<open>
  The whole body runs under \<^verbatim>\<open>try\<close>; \<^verbatim>\<open>except Exception\<close> logs the error.  The two
  files are written first; the two posts run only when token and chat id are non-empty
  and their responses are not inspected; the two \<^verbatim>\<open>os.remove\<close> calls follow.
\<close>

definition send_alert ::
  "string \<Rightarrow> string \<Rightarrow> string \<Rightarrow> http \<Rightarrow> http \<Rightarrow> string set \<Rightarrow> string set \<times> io list" where
  "send_alert token chat_id timestamp message_post audio_post disk =
     (let wav_path = ''noise_alert_'' @ timestamp @ ''.wav'';
          ogg_path = replace_ext wav_path;
          disk1 = insert ogg_path (insert wav_path disk);
          written = [WriteFile wav_path, ReadFile wav_path, WriteFile ogg_path];
          posted = (if token \<noteq> [] \<and> chat_id \<noteq> []
                    then (case message_post of
                            ConnectionError \<Rightarrow> (Raised, [PostMessage])
                          | Status c1 \<Rightarrow>
                              (case audio_post of
                                 ConnectionError \<Rightarrow> (Raised, [PostMessage, PostAudio ogg_path])
                               | Status c2 \<Rightarrow> (Returned, [PostMessage, PostAudio ogg_path])))
                    else (Returned, []))
      in case posted of
           (Raised, tr) \<Rightarrow> (disk1, written @ tr @ [LogError])
         | (Returned, tr) \<Rightarrow>
             (case remove_both wav_path ogg_path disk1 of
                (Raised, disk2, tr2) \<Rightarrow> (disk2, written @ tr @ tr2 @ [LogError])
              | (Returned, disk2, tr2) \<Rightarrow> (disk2, written @ tr @ tr2)))"

section \<open>The monitoring cycles\<close>

text \<open>
  What one cycle takes from its environment: the recorded block, the clock
  (\<^verbatim>\<open>time.time()\<close>), the time stamp used in the file name, and what the two network
  calls of a dispatch do.
\<close>

record cycle =
  recording :: ndarray
  current_time :: real
  timestamp :: string
  message_post :: http
  audio_post :: http

datatype event = Triggered | Recovered | Alert_error | Recording_error | Crashed

subsection \<open>The loop of \<^verbatim>\<open>monitor_usb_mic\<close>\<close>

datatype nstate = NOISE_NORMAL | NOISE_HIGH

record monitor =
  last_alert_time :: real
  noise_state :: nstate

definition monitor_init :: monitor where
  "monitor_init = \<lparr>last_alert_time = 0, noise_state = NOISE_NORMAL\<rparr>"

text \<open>
  One pass through the body of \<^verbatim>\<open>while True\<close>, for the parameters
  \<^verbatim>\<open>threshold_db\<close> and \<^verbatim>\<open>alert_interval\<close>.  \<open>Triggered\<close> stands for an alert whose
  \<^verbatim>\<open>try\<close> block ran to its end (\<^verbatim>\<open>send_telegram_alert\<close> returned, then
  \<^verbatim>\<open>last_alert_time\<close> and \<^verbatim>\<open>noise_state\<close> were assigned); \<open>Alert_error\<close> for one
  that raised and was caught by \<^verbatim>\<open>except Exception\<close> (\<^verbatim>\<open>continue\<close>).  An exception
  in the dispatch of the recovery notice is not caught by the loop
  (only \<^verbatim>\<open>KeyboardInterrupt\<close> is) and ends the program: \<open>Crashed\<close>.
  Recording from the device (\<^verbatim>\<open>sd.rec\<close>) is taken to succeed; the offset of 90 dB is the
  one the loop adds to the reading.
\<close>

definition monitor_cycle ::
  "real \<Rightarrow> real \<Rightarrow> cycle \<Rightarrow> monitor \<times> string set
     \<Rightarrow> (monitor \<times> string set) \<times> event list \<times> io list" where
  "monitor_cycle threshold_db alert_interval c = (\<lambda>(m, disk).
     let noise_level_db = get_noise_level (recording c);
         db_spl = float_add noise_level_db 90
     in if float_gt db_spl threshold_db \<and> current_time c - last_alert_time m \<ge> alert_interval
        then (if noise_state m = NOISE_NORMAL
              then (let audio_file_path = ''noise_alert_'' @ timestamp c @ ''.wav'';
                        disk1 = insert audio_file_path disk
                    in case send_telegram_alert (message_post c) (audio_post c)
                              (Some audio_file_path) disk1 of
                         (Returned, disk2, tr) \<Rightarrow>
                           ((m\<lparr>last_alert_time := current_time c, noise_state := NOISE_HIGH\<rparr>, disk2),
                            [Triggered], WriteFile audio_file_path # tr)
                       | (Raised, disk2, tr) \<Rightarrow>
                           ((m, disk2), [Alert_error], WriteFile audio_file_path # tr))
              else ((m, disk), [], []))
        else if float_le db_spl threshold_db \<and> noise_state m = NOISE_HIGH
        then (case send_telegram_alert (message_post c) (audio_post c) None disk of
                (Returned, disk2, tr) \<Rightarrow>
                  ((m\<lparr>noise_state := NOISE_NORMAL\<rparr>, disk2), [Recovered], tr)
              | (Raised, disk2, tr) \<Rightarrow> ((m, disk2), [Crashed], tr))
        else ((m, disk), [], []))"

text \<open>
  The two views of a pass: the state it leaves with the events it emits, and the trace of
  its operations on files and on the network.
\<close>

definition monitor_iteration ::
  "real \<Rightarrow> real \<Rightarrow> cycle \<Rightarrow> monitor \<times> string set \<Rightarrow> (monitor \<times> string set) \<times> event list" where
  "monitor_iteration threshold_db alert_interval c s =
     (case monitor_cycle threshold_db alert_interval c s of (s', evs, tr) \<Rightarrow> (s', evs))"


text \<open>The loop over a sequence of cycles; it yields the events with their times.\<close>

fun monitor_run ::
  "real \<Rightarrow> real \<Rightarrow> monitor \<times> string set \<Rightarrow> cycle list \<Rightarrow> (real \<times> event) list" where
  "monitor_run threshold_db alert_interval s [] = []"
| "monitor_run threshold_db alert_interval s (c # cs) =
     (case monitor_iteration threshold_db alert_interval c s of
        (s', evs) \<Rightarrow>
          map (Pair (current_time c)) evs
          @ (if Crashed \<in> set evs then [] else monitor_run threshold_db alert_interval s' cs))"

subsection \<open>\<^verbatim>\<open>record_audio\<close> and the timer of the window application\<close>

record settings =
  threshold :: int
  filter_micro_lags :: bool
  spike_duration_ms :: int
  telegram_token :: string
  telegram_chat_id :: string

datatype thread = Running | Finished

record window =
  self_is_monitoring :: bool
  self_device_id :: "nat option"
  self_recording_thread :: "thread option"
  self_last_alert_time :: real
  self_max_level :: real
  self_min_level :: real
  self_current_db :: real

text \<open>
  \<^verbatim>\<open>record_audio\<close> for a chunk size \<open>csize\<close>.  \<open>Triggered\<close> marks the call of
  \<^verbatim>\<open>send_alert\<close>; \<open>Recording_error\<close> the handler \<^verbatim>\<open>except Exception\<close> of
  \<^verbatim>\<open>record_audio\<close>, reached when \<^verbatim>\<open>np.array_split\<close> is asked for zero sections.
\<close>

definition record_audio_cycle ::
  "nat \<Rightarrow> settings \<Rightarrow> cycle \<Rightarrow> window \<times> string set
     \<Rightarrow> (window \<times> string set) \<times> event list \<times> io list" where
  "record_audio_cycle csize cfg c = (\<lambda>(w, disk).
     let rows = rows_of (recording c)
     in case array_split rows (length rows div csize) of
          None \<Rightarrow> ((w, disk), [Recording_error], [LogError])
        | Some chunks \<Rightarrow>
            (let db_levels = db_levels_loop chunks
             in case aggregate db_levels of
                  None \<Rightarrow> ((w, disk), [], [])
                | Some (avg_db, max_db, min_db) \<Rightarrow>
                    (let w1 = w\<lparr>self_max_level :=
                                   (if max_db > self_max_level w then max_db else self_max_level w),
                                 self_min_level :=
                                   (if min_db < self_min_level w then min_db else self_min_level w),
                                 self_current_db := avg_db\<rparr>
                     in if should_alert (filter_micro_lags cfg) (spike_duration_ms cfg)
                             (threshold cfg) db_levels max_db
                           \<and> current_time c - self_last_alert_time w \<ge> ALERT_COOLDOWN
                        then (case send_alert (telegram_token cfg) (telegram_chat_id cfg)
                                     (timestamp c) (message_post c) (audio_post c) disk of
                                (disk', tr) \<Rightarrow>
                                  ((w1\<lparr>self_last_alert_time := current_time c\<rparr>, disk'),
                                   [Triggered], tr))
                        else ((w1, disk), [], []))))"

text \<open>The state and the events of the cycle, and the trace of its operations.\<close>

definition record_audio_at ::
  "nat \<Rightarrow> settings \<Rightarrow> cycle \<Rightarrow> window \<times> string set \<Rightarrow> (window \<times> string set) \<times> event list" where
  "record_audio_at csize cfg c s =
     (case record_audio_cycle csize cfg c s of (s', evs, tr) \<Rightarrow> (s', evs))"


definition record_audio ::
  "settings \<Rightarrow> cycle \<Rightarrow> window \<times> string set \<Rightarrow> (window \<times> string set) \<times> event list" where
  "record_audio = record_audio_at chunk_size"




text \<open>The times of the \<open>Triggered\<close> events of a run, in order.\<close>

definition triggered_times :: "(real \<times> event) list \<Rightarrow> real list" where
  "triggered_times timeline = map fst (filter (\<lambda>te. snd te = Triggered) timeline)"

text \<open>
  Whether a block satisfies the alert policy of the window application: the value of
  \<^verbatim>\<open>should_alert\<close> that \<^verbatim>\<open>record_audio\<close> computes for it, and false when it computes
  none (no chunks, or silent chunks only).
\<close>

definition block_triggers :: "nat \<Rightarrow> settings \<Rightarrow> cycle \<Rightarrow> bool" where
  "block_triggers csize cfg c =
     (case array_split (rows_of (recording c)) (length (rows_of (recording c)) div csize) of
        None \<Rightarrow> False
      | Some chunks \<Rightarrow>
          (case aggregate (db_levels_loop chunks) of
             None \<Rightarrow> False
           | Some (avg_db, max_db, min_db) \<Rightarrow>
               should_alert (filter_micro_lags cfg) (spike_duration_ms cfg) (threshold cfg)
                 (db_levels_loop chunks) max_db))"

text \<open>
  A sequence of events in which \<open>Triggered\<close> and \<open>Recovered\<close> take turns; the flag
  says whether a \<open>Triggered\<close> is the last of the two seen so far.
\<close>

fun alternating :: "bool \<Rightarrow> event list \<Rightarrow> bool" where
  "alternating high [] = True"
| "alternating high (Triggered # es) = (\<not> high \<and> alternating True es)"
| "alternating high (Recovered # es) = (high \<and> alternating False es)"
| "alternating high (e # es) = alternating high es"

section \<open>Initial states and sample inputs\<close>

text \<open>
  The window as \<^verbatim>\<open>NoiseMonitorWindow.__init__\<close> sets it up, with an input device found,
  and the same window while its recording thread is alive.  The settings are the defaults
  of the application, with a token and a chat id entered.
\<close>

definition window_init :: window where
  "window_init = \<lparr>self_is_monitoring = True, self_device_id = Some 0,
                   self_recording_thread = None, self_last_alert_time = 0,
                   self_max_level = 0, self_min_level = 120, self_current_db = 0\<rparr>"


definition default_settings :: settings where
  "default_settings = \<lparr>threshold = DEFAULT_THRESHOLD, filter_micro_lags = True,
                        spike_duration_ms = DEFAULT_SPIKE_DURATION,
                        telegram_token = ''token'', telegram_chat_id = ''chat''\<rparr>"

text \<open>The command-line monitor in state High, its last alert made at time 1000.\<close>

definition monitor_high :: monitor where
  "monitor_high = \<lparr>last_alert_time = 1000, noise_state = NOISE_HIGH\<rparr>"

text \<open>
  Sample cycles.  A full-scale sample has the level 0 dBFS, that is 90 dB SPL; a zero
  sample is silent.  The block of \<open>faint_cycle\<close> has one sub-chunk of about 96 dB SPL and
  three silent ones, and 90 dB SPL as a whole.
\<close>

definition empty_cycle :: cycle where
  "empty_cycle = \<lparr>recording = Array2 [], current_time = 1000, timestamp = ''20240101_120000'',
                   message_post = Status 200, audio_post = Status 200\<rparr>"

definition no_channel_cycle :: cycle where
  "no_channel_cycle = \<lparr>recording = Array2 [[], []], current_time = 1000,
                        timestamp = ''20240101_120000'',
                        message_post = Status 200, audio_post = Status 200\<rparr>"

definition silent_cycle :: cycle where
  "silent_cycle = \<lparr>recording = Array1 [0, 0], current_time = 1000, timestamp = ''20240101_120000'',
                    message_post = Status 200, audio_post = Status 200\<rparr>"

definition loud_cycle :: "real \<Rightarrow> http \<Rightarrow> http \<Rightarrow> cycle" where
  "loud_cycle t mp ap = \<lparr>recording = Array1 [1], current_time = t, timestamp = ''20240101_120000'',
                          message_post = mp, audio_post = ap\<rparr>"

definition quiet_cycle :: "real \<Rightarrow> http \<Rightarrow> cycle" where
  "quiet_cycle t mp = \<lparr>recording = Array1 [0], current_time = t, timestamp = ''20240101_120000'',
                        message_post = mp, audio_post = mp\<rparr>"


definition spike_cycle :: cycle where
  "spike_cycle = \<lparr>recording = Array1 [1, 0, 1], current_time = 1000,
                   timestamp = ''20240101_120000'',
                   message_post = Status 200, audio_post = Status 200\<rparr>"


section \<open>Properties of the level analysis\<close>

lemma round_even_of_int: "round_even (real_of_int i) = i"
  by (simp add: round_even_def)

lemma round_even_close: "\<bar>real_of_int (round_even t) - t\<bar> \<le> 1 / 2"
proof -
  have "real_of_int \<lfloor>t\<rfloor> \<le> t" and "t < real_of_int \<lfloor>t\<rfloor> + 1"
    by linarith+
  then show ?thesis
    by (auto simp: round_even_def Let_def)
qed

lemma floor_log2:
  assumes "0 < x" and "2 powr real_of_int e \<le> x" and "x < 2 powr (real_of_int e + 1)"
  shows "\<lfloor>log 2 x\<rfloor> = e"
proof (rule floor_unique)
  show "real_of_int e \<le> log 2 x"
    using assms(1,2) by (simp add: le_log_iff)
  show "log 2 x < real_of_int e + 1"
    using assms(1,3) by (simp add: log_less_iff)
qed

lemma binary64_at:
  assumes "0 < x" and "2 powr real_of_int e \<le> x" and "x < 2 powr (real_of_int e + 1)"
  shows "binary64 x = real_of_int (round_even (x / 2 powr (real_of_int e - 52)))
                        * 2 powr (real_of_int e - 52)"
proof -
  have "\<lfloor>log 2 \<bar>x\<bar>\<rfloor> = e"
    using assms by (simp add: floor_log2)
  with assms(1) show ?thesis
    by (simp add: binary64_def Let_def)
qed

lemma round_even_tenth: "round_even ((1 / 10) / (1 / 2 ^ 56)) = 7205759403792794"
  by (simp add: round_even_def Let_def)

lemma tenth_lower: "(2::real) powr real_of_int (- 4) \<le> 1 / 10"
  by (simp add: powr_neg_numeral)

lemma tenth_upper: "(1::real) / 10 < 2 powr (real_of_int (- 4) + 1)"
  by (simp add: powr_neg_numeral)

lemma tenth_ulp: "(2::real) powr (real_of_int (- 4) - 52) = 1 / 2 ^ 56"
  by (simp add: powr_neg_numeral)

lemma binary64_tenth: "binary64 (1 / 10) = 3602879701896397 / 2 ^ 55"
proof -
  have "binary64 (1 / 10) = real_of_int (round_even ((1 / 10) / 2 powr (real_of_int (- 4) - 52)))
                        * 2 powr (real_of_int (- 4) - 52)"
    by (rule binary64_at [OF _ tenth_lower tenth_upper]) simp
  then show ?thesis
    unfolding tenth_ulp round_even_tenth by simp
qed


lemma chunk_duration_value: "CHUNK_DURATION = 3602879701896397 / 2 ^ 55"
  unfolding CHUNK_DURATION_def by (rule binary64_tenth)

lemma round_even_hundred: "round_even (3602879701896397 / 2 ^ 55 * 1000 / (1 / 2 ^ 46)) = 7036874417766400"
  by (simp add: round_even_def Let_def)

lemma chunk_duration_ms: "binary64 (CHUNK_DURATION * 1000) = 100"
proof -
  have lo: "(2::real) powr real_of_int 6 \<le> 3602879701896397 / 2 ^ 55 * 1000"
    by simp
  have hi: "(3602879701896397::real) / 2 ^ 55 * 1000 < 2 powr (real_of_int 6 + 1)"
    by simp
  have u: "(2::real) powr (real_of_int 6 - 52) = 1 / 2 ^ 46"
    by (simp add: powr_neg_numeral)
  have "binary64 (3602879701896397 / 2 ^ 55 * 1000)
      = real_of_int (round_even (3602879701896397 / 2 ^ 55 * 1000 / 2 powr (real_of_int 6 - 52)))
          * 2 powr (real_of_int 6 - 52)"
    by (rule binary64_at [OF _ lo hi]) simp
  then show ?thesis
    unfolding chunk_duration_value u round_even_hundred by simp
qed

lemma round_even_chunk: "round_even (44100 * (3602879701896397 / 2 ^ 55) / (1 / 2 ^ 40)) = 4848846278492160"
  by (simp add: round_even_def Let_def)

lemma chunk_duration_samples: "binary64 (44100 * CHUNK_DURATION) = 4410"
proof -
  have lo: "(2::real) powr real_of_int 12 \<le> 44100 * (3602879701896397 / 2 ^ 55)"
    by simp
  have hi: "(44100::real) * (3602879701896397 / 2 ^ 55) < 2 powr (real_of_int 12 + 1)"
    by simp
  have u: "(2::real) powr (real_of_int 12 - 52) = 1 / 2 ^ 40"
    by (simp add: powr_neg_numeral)
  have "binary64 (44100 * (3602879701896397 / 2 ^ 55))
      = real_of_int (round_even (44100 * (3602879701896397 / 2 ^ 55) / 2 powr (real_of_int 12 - 52)))
          * 2 powr (real_of_int 12 - 52)"
    by (rule binary64_at [OF _ lo hi]) simp
  then show ?thesis
    unfolding chunk_duration_value u round_even_chunk by simp
qed

lemma binary64_close:
  assumes "x \<noteq> 0"
  shows "\<bar>binary64 x - x\<bar> \<le> 2 powr (real_of_int \<lfloor>log 2 \<bar>x\<bar>\<rfloor> - 52) / 2"
proof -
  define u where "u = 2 powr (real_of_int \<lfloor>log 2 \<bar>x\<bar>\<rfloor> - 52)"
  have pos: "0 < u" by (simp add: u_def)
  have b: "binary64 x = real_of_int (round_even (x / u)) * u"
    using assms by (simp add: binary64_def Let_def u_def)
  have "\<bar>real_of_int (round_even (x / u)) - x / u\<bar> \<le> 1 / 2"
    by (rule round_even_close)
  then have "\<bar>real_of_int (round_even (x / u)) - x / u\<bar> * u \<le> 1 / 2 * u"
    using pos by (intro mult_right_mono) simp_all
  moreover have "\<bar>real_of_int (round_even (x / u)) - x / u\<bar> * u
      = \<bar>real_of_int (round_even (x / u)) * u - x\<bar>"
  proof -
    have "\<bar>real_of_int (round_even (x / u)) - x / u\<bar> * u
        = \<bar>(real_of_int (round_even (x / u)) - x / u) * u\<bar>"
      using pos by (simp add: abs_mult)
    also have "(real_of_int (round_even (x / u)) - x / u) * u
        = real_of_int (round_even (x / u)) * u - x"
      using pos by (simp add: left_diff_distrib)
    finally show ?thesis .
  qed
  ultimately show ?thesis
    unfolding b u_def [symmetric] by simp
qed

lemma ulp_small:
  assumes "0 < x" and "x < 2 ^ 46"
  shows "2 powr (real_of_int \<lfloor>log 2 \<bar>x\<bar>\<rfloor> - 52) \<le> 1 / 128"
proof -
  have "log 2 x < 46"
    using assms by (simp add: log_less_iff)
  then have "\<lfloor>log 2 x\<rfloor> < 46"
    by (simp add: floor_less_iff)
  then have "real_of_int \<lfloor>log 2 x\<rfloor> - 52 \<le> - 7"
    by linarith
  then have "(2::real) powr (real_of_int \<lfloor>log 2 x\<rfloor> - 52) \<le> 2 powr (- 7)"
    by (intro powr_mono) simp_all
  also have "(2::real) powr (- 7) = 1 / 128"
    by (simp add: powr_neg_numeral)
  finally show ?thesis
    using assms(1) by simp
qed

lemma binary64_of_int:
  assumes "0 < i" and "i < 2 ^ 53"
  shows "binary64 (real_of_int i) = real_of_int i"
proof -
  define e where "e = \<lfloor>log 2 \<bar>real_of_int i\<bar>\<rfloor>"
  have x: "1 \<le> real_of_int i" "real_of_int i < 2 ^ 53"
    using assms by simp_all
  have "0 \<le> log 2 (real_of_int i)"
    using x(1) by simp
  then have e0: "0 \<le> e"
    using x(1) by (simp add: e_def)
  have "log 2 (real_of_int i) < 53"
    using x by (simp add: log_less_iff)
  then have e52: "e \<le> 52"
    using x(1) by (simp add: e_def floor_less_iff)
  define n where "n = nat (52 - e)"
  have "real_of_int e - 52 = - real n"
    using e52 by (simp add: n_def)
  then have u: "2 powr (real_of_int e - 52) = 1 / 2 ^ n"
    by (simp add: powr_minus_divide powr_realpow)
  have "real_of_int i / (1 / 2 ^ n) = real_of_int (i * 2 ^ n)"
    by simp
  then have r: "round_even (real_of_int i / (1 / 2 ^ n)) = i * 2 ^ n"
    by (simp only: round_even_of_int)
  have "binary64 (real_of_int i)
      = real_of_int (round_even (real_of_int i / 2 powr (real_of_int e - 52)))
          * 2 powr (real_of_int e - 52)"
    using x(1) by (simp add: binary64_def Let_def e_def)
  then show ?thesis
    unfolding u r by simp
qed


lemma py_int_between:
  assumes "real_of_int k \<le> b" and "b < real_of_int k + 1" and "0 \<le> k"
  shows "py_int b = k"
proof -
  have "0 \<le> b" using assms(1,3) by linarith
  moreover have "\<lfloor>b\<rfloor> = k" using assms(1,2) by (intro floor_unique)
  ultimately show ?thesis by (simp add: py_int_def)
qed

lemma binary64_hundredths:
  assumes k0: "0 \<le> k" and r0: "0 \<le> r" and r100: "r < 100"
    and pos: "0 < 100 * k + r" and small: "100 * k + r < 2 ^ 52"
  shows "py_int (binary64 (real_of_int (100 * k + r) / 100)) = k"
proof (cases "r = 0")
  case True
  with pos have kpos: "0 < k" by simp
  from small k0 r0 have "k < 2 ^ 53" by simp
  with kpos have "binary64 (real_of_int k) = real_of_int k"
    by (rule binary64_of_int)
  moreover from True have "real_of_int (100 * k + r) / 100 = real_of_int k" by simp
  ultimately have "binary64 (real_of_int (100 * k + r) / 100) = real_of_int k"
    by simp
  with k0 show ?thesis by (simp add: py_int_def)
next
  case False
  with r0 have r1: "1 \<le> r" by simp
  define y where "y = real_of_int (100 * k + r) / 100"
  have yk: "y = real_of_int k + real_of_int r / 100"
    by (simp add: y_def)
  from r1 have "1 \<le> real_of_int r" by simp
  with yk have lo: "real_of_int k + 1 / 100 \<le> y" by simp
  from r100 have "r \<le> 99" by simp
  then have "real_of_int r \<le> 99" by simp
  with yk have hi: "y \<le> real_of_int k + 99 / 100" by simp
  from k0 have "0 \<le> real_of_int k" by simp
  with lo have ypos: "0 < y" by linarith
  from small have "real_of_int (100 * k + r) < 2 ^ 52"
    by (metis of_int_less_numeral_power_cancel_iff)
  then have "y < 2 ^ 52 / 100" by (simp add: y_def)
  also have "(2::real) ^ 52 / 100 < 2 ^ 46" by simp
  finally have y46: "y < 2 ^ 46" .
  have "\<bar>binary64 y - y\<bar> \<le> 2 powr (real_of_int \<lfloor>log 2 \<bar>y\<bar>\<rfloor> - 52) / 2"
    using ypos by (intro binary64_close) simp
  moreover have "2 powr (real_of_int \<lfloor>log 2 \<bar>y\<bar>\<rfloor> - 52) \<le> 1 / 128"
    using ypos y46 by (rule ulp_small)
  ultimately have close: "\<bar>binary64 y - y\<bar> \<le> 1 / 256" by linarith
  from close lo have a: "real_of_int k \<le> binary64 y" by linarith
  from close hi have b: "binary64 y < real_of_int k + 1" by linarith
  from a b k0 have "py_int (binary64 y) = k" by (rule py_int_between)
  then show ?thesis by (simp only: y_def)
qed

lemma required_chunks_nonneg:
  assumes "0 \<le> spike" and "spike < 2 ^ 52"
  shows "required_chunks spike = spike div 100"
proof (cases "spike = 0")
  case True
  then show ?thesis
    by (simp add: required_chunks_def binary64_def py_int_def)
next
  case False
  with assms(1) have pos: "0 < spike" by simp
  from assms(2) have "spike < 2 ^ 53" by simp
  with pos have exact: "binary64 (real_of_int spike) = real_of_int spike"
    by (rule binary64_of_int)
  define k where "k = spike div 100"
  define r where "r = spike mod 100"
  have split: "spike = 100 * k + r"
    unfolding k_def r_def by simp
  have r0: "0 \<le> r" and r100: "r < 100"
    unfolding r_def by simp_all
  have k0: "0 \<le> k"
    unfolding k_def using assms(1) by (simp add: pos_imp_zdiv_nonneg_iff)
  have "py_int (binary64 (real_of_int (100 * k + r) / 100)) = k"
    using k0 r0 r100 pos assms(2) unfolding split by (rule binary64_hundredths)
  then have "py_int (binary64 (real_of_int spike / 100)) = k"
    by (simp only: split [symmetric])
  then show ?thesis
    unfolding required_chunks_def exact chunk_duration_ms k_def .
qed

lemma chunk_size_value: "chunk_size = 4410"
  by (simp add: chunk_size_def SAMPLE_RATE_def chunk_duration_samples py_int_def)

lemma monitor_iteration_unfold:
  "monitor_iteration threshold_db alert_interval c = (\<lambda>(m, disk).
     let noise_level_db = get_noise_level (recording c);
         db_spl = float_add noise_level_db 90
     in if float_gt db_spl threshold_db \<and> current_time c - last_alert_time m \<ge> alert_interval
        then (if noise_state m = NOISE_NORMAL
              then (let audio_file_path = ''noise_alert_'' @ timestamp c @ ''.wav'';
                        disk1 = insert audio_file_path disk
                    in case send_telegram_alert (message_post c) (audio_post c)
                              (Some audio_file_path) disk1 of
                         (Returned, disk2, tr) \<Rightarrow>
                           ((m\<lparr>last_alert_time := current_time c, noise_state := NOISE_HIGH\<rparr>, disk2),
                            [Triggered])
                       | (Raised, disk2, tr) \<Rightarrow> ((m, disk2), [Alert_error]))
              else ((m, disk), []))
        else if float_le db_spl threshold_db \<and> noise_state m = NOISE_HIGH
        then (case send_telegram_alert (message_post c) (audio_post c) None disk of
                (Returned, disk2, tr) \<Rightarrow> ((m\<lparr>noise_state := NOISE_NORMAL\<rparr>, disk2), [Recovered])
              | (Raised, disk2, tr) \<Rightarrow> ((m, disk2), [Crashed]))
        else ((m, disk), []))"
  by (rule ext)
    (auto simp: monitor_iteration_def monitor_cycle_def Let_def split: prod.splits outcome.splits)

lemma record_audio_at_unfold:
  "record_audio_at csize cfg c = (\<lambda>(w, disk).
     let rows = rows_of (recording c)
     in case array_split rows (length rows div csize) of
          None \<Rightarrow> ((w, disk), [Recording_error])
        | Some chunks \<Rightarrow>
            (let db_levels = db_levels_loop chunks
             in case aggregate db_levels of
                  None \<Rightarrow> ((w, disk), [])
                | Some (avg_db, max_db, min_db) \<Rightarrow>
                    (let w1 = w\<lparr>self_max_level :=
                                   (if max_db > self_max_level w then max_db else self_max_level w),
                                 self_min_level :=
                                   (if min_db < self_min_level w then min_db else self_min_level w),
                                 self_current_db := avg_db\<rparr>
                     in if should_alert (filter_micro_lags cfg) (spike_duration_ms cfg)
                             (threshold cfg) db_levels max_db
                           \<and> current_time c - self_last_alert_time w \<ge> ALERT_COOLDOWN
                        then (case send_alert (telegram_token cfg) (telegram_chat_id cfg)
                                     (timestamp c) (message_post c) (audio_post c) disk of
                                (disk', tr) \<Rightarrow>
                                  ((w1\<lparr>self_last_alert_time := current_time c\<rparr>, disk'),
                                   [Triggered]))
                        else ((w1, disk), []))))"
  by (rule ext)
    (auto simp: record_audio_at_def record_audio_cycle_def Let_def
      split: prod.splits option.splits)

lemma chunk_spl_cases:
  "chunk_spl chunk =
     (case chunk_rms chunk of
        Fin r \<Rightarrow> if r > 0 then Fin (20 * log 10 r + 90) else NegInf
      | NaN \<Rightarrow> NaN
      | NegInf \<Rightarrow> NegInf)"
  by (simp add: chunk_spl_def amplitude_to_db_def split: pyfloat.splits)

lemma high_chunks_loop: "high_chunks thr (db_levels_loop chunks) = loud_chunks thr chunks"
  by (induction chunks)
    (auto simp: high_chunks_def loud_chunks_def chunk_spl_cases split: pyfloat.splits)

lemma chunk_rms_single: "chunk_rms [[x]] = Fin \<bar>x\<bar>"
  by (simp add: chunk_rms_def np_mean_def)

lemma db_levels_loop_silent:
  "chunk_rms chunk = Fin 0 \<Longrightarrow> db_levels_loop (chunk # chunks) = db_levels_loop chunks"
  by simp

lemma db_levels_loop_filter:
  "db_levels_loop (filter (\<lambda>chunk. chunk_rms chunk \<noteq> Fin 0) chunks) = db_levels_loop chunks"
  by (induction chunks) (auto split: pyfloat.splits)

lemma db_levels_loop_all_silent:
  "\<forall>chunk \<in> set chunks. chunk_rms chunk = Fin 0 \<Longrightarrow> db_levels_loop chunks = []"
  by (induction chunks) auto

lemma block_triggers_sustained:
  assumes on: "filter_micro_lags cfg"
    and req: "1 \<le> required_chunks (spike_duration_ms cfg)"
    and split: "array_split (rows_of (recording c)) (length (rows_of (recording c)) div csize)
                  = Some chunks"
  shows "block_triggers csize cfg c
           = (required_chunks (spike_duration_ms cfg) \<le> loud_chunks (threshold cfg) chunks)"
proof (cases "db_levels_loop chunks")
  case Nil
  then have "high_chunks (threshold cfg) (db_levels_loop chunks) = 0"
    by (simp add: high_chunks_def)
  then have "loud_chunks (threshold cfg) chunks = 0"
    by (simp only: high_chunks_loop)
  with req have "\<not> required_chunks (spike_duration_ms cfg) \<le> loud_chunks (threshold cfg) chunks"
    by simp
  moreover from Nil split have "\<not> block_triggers csize cfg c"
    by (simp add: block_triggers_def aggregate_def)
  ultimately show ?thesis by simp
next
  case (Cons x xs)
  then have "block_triggers csize cfg c
      = should_alert True (spike_duration_ms cfg) (threshold cfg) (db_levels_loop chunks)
          (fold max xs x)"
    using split on by (simp add: block_triggers_def aggregate_def)
  also have "\<dots> = (required_chunks (spike_duration_ms cfg) \<le> loud_chunks (threshold cfg) chunks)"
    by (simp add: should_alert_def high_chunks_loop)
  finally show ?thesis .
qed

text \<open>
  C1.  In sustained mode (\<^verbatim>\<open>filter_micro_lags\<close> set) the decision \<^verbatim>\<open>should_alert\<close> that
  \<^verbatim>\<open>record_audio\<close> computes from the \<^verbatim>\<open>db_levels\<close> of a block is true exactly when the
  number of sub-chunks of the block whose level in dB SPL exceeds the threshold is at
  least \<^verbatim>\<open>required_chunks\<close>.  The code marks no sub-chunk as partial: every chunk that
  \<^verbatim>\<open>np.array_split\<close> returns is counted.  In particular, for a required count of 3, a
  block with exactly two such sub-chunks decides false and one with exactly three decides
  true.  For a required count of at least 1 the same holds of the decision taken for the
  whole block, in which a block of silent sub-chunks only is never alerted.
\<close>

theorem sustained_mode_decision:
  "should_alert True spike thr (db_levels_loop chunks) max_db
     = (required_chunks spike \<le> loud_chunks thr chunks)
   \<and> (required_chunks spike = 3 \<and> loud_chunks thr chunks = 2
        \<longrightarrow> \<not> should_alert True spike thr (db_levels_loop chunks) max_db)
   \<and> (required_chunks spike = 3 \<and> loud_chunks thr chunks = 3
        \<longrightarrow> should_alert True spike thr (db_levels_loop chunks) max_db)
   \<and> (filter_micro_lags cfg \<and> 1 \<le> required_chunks (spike_duration_ms cfg)
        \<and> array_split (rows_of (recording c)) (length (rows_of (recording c)) div csize)
            = Some chunks
        \<longrightarrow> block_triggers csize cfg c
              = (required_chunks (spike_duration_ms cfg) \<le> loud_chunks (threshold cfg) chunks))"
proof (intro conjI impI)
  show eq: "should_alert True spike thr (db_levels_loop chunks) max_db
     = (required_chunks spike \<le> loud_chunks thr chunks)"
    by (simp add: should_alert_def high_chunks_loop)
  assume "required_chunks spike = 3 \<and> loud_chunks thr chunks = 2"
  then show "\<not> should_alert True spike thr (db_levels_loop chunks) max_db"
    unfolding eq by simp
next
  assume "required_chunks spike = 3 \<and> loud_chunks thr chunks = 3"
  then show "should_alert True spike thr (db_levels_loop chunks) max_db"
    by (simp add: should_alert_def high_chunks_loop)
next
  assume "filter_micro_lags cfg \<and> 1 \<le> required_chunks (spike_duration_ms cfg)
        \<and> array_split (rows_of (recording c)) (length (rows_of (recording c)) div csize)
            = Some chunks"
  then show "block_triggers csize cfg c
              = (required_chunks (spike_duration_ms cfg) \<le> loud_chunks (threshold cfg) chunks)"
    by (intro block_triggers_sustained) simp_all
qed

theorem sustained_mode_decision_witness:
  "required_chunks 300 = 3
   \<and> loud_chunks 30 [[[1]], [[0]], [[1]]] = 2
   \<and> \<not> should_alert True 300 30 (db_levels_loop [[[1]], [[0]], [[1]]]) 90
   \<and> loud_chunks 30 [[[1]], [[1]], [[1]]] = 3
   \<and> should_alert True 300 30 (db_levels_loop [[[1]], [[1]], [[1]]]) 90
   \<and> filter_micro_lags (default_settings\<lparr>spike_duration_ms := 300\<rparr>)
   \<and> array_split (rows_of (recording spike_cycle)) (length (rows_of (recording spike_cycle)) div 1)
       = Some [[[1]], [[0]], [[1]]]
   \<and> \<not> block_triggers 1 (default_settings\<lparr>spike_duration_ms := 300\<rparr>) spike_cycle"
proof -
  have req: "required_chunks 300 = 3"
    by (simp add: required_chunks_nonneg)
  have two: "loud_chunks 30 [[[1]], [[0]], [[1]]] = 2"
    by (simp add: loud_chunks_def chunk_spl_cases chunk_rms_single)
  have three: "loud_chunks 30 [[[1]], [[1]], [[1]]] = 3"
    by (simp add: loud_chunks_def chunk_spl_cases chunk_rms_single)
  have on: "filter_micro_lags (default_settings\<lparr>spike_duration_ms := 300\<rparr>)"
    by (simp add: default_settings_def)
  have cfg: "spike_duration_ms (default_settings\<lparr>spike_duration_ms := 300\<rparr>) = 300"
    "threshold (default_settings\<lparr>spike_duration_ms := 300\<rparr>) = 30"
    by (simp_all add: default_settings_def DEFAULT_THRESHOLD_def)
  have split: "array_split (rows_of (recording spike_cycle))
      (length (rows_of (recording spike_cycle)) div 1) = Some [[[1]], [[0]], [[1]]]"
    by (simp add: spike_cycle_def array_split_def section_sizes_def)
  note low = sustained_mode_decision [of 300 30 "[[[1]], [[0]], [[1]]]" 90
      "default_settings\<lparr>spike_duration_ms := 300\<rparr>" spike_cycle 1]
  note full = sustained_mode_decision [of 300 30 "[[[1]], [[1]], [[1]]]" 90
      "default_settings\<lparr>spike_duration_ms := 300\<rparr>" spike_cycle 1]
  from low req two
  have no: "\<not> should_alert True 300 30 (db_levels_loop [[[1]], [[0]], [[1]]]) 90"
    by (simp only: simp_thms)
  from full req three
  have yes: "should_alert True 300 30 (db_levels_loop [[[1]], [[1]], [[1]]]) 90"
    by (simp only: simp_thms)
  from low on split
  have "block_triggers 1 (default_settings\<lparr>spike_duration_ms := 300\<rparr>) spike_cycle
      = (required_chunks 300 \<le> loud_chunks 30 [[[1]], [[0]], [[1]]])"
    unfolding cfg req by simp
  then have blk: "\<not> block_triggers 1 (default_settings\<lparr>spike_duration_ms := 300\<rparr>) spike_cycle"
    unfolding req two by simp
  from req two no three yes on split blk show ?thesis by (simp only: simp_thms)
qed

lemma ceiling_of_150: "\<lceil>real_of_int 150 / binary64 (CHUNK_DURATION * 1000)\<rceil> = 2"
  unfolding chunk_duration_ms by simp

lemma required_chunks_150: "required_chunks 150 = 1"
  unfolding required_chunks_nonneg [of 150, simplified] by simp

lemma required_chunks_50: "required_chunks 50 = 0"
  unfolding required_chunks_nonneg [of 50, simplified] by simp

lemma round_even_big: "round_even (real_of_int 999999999999999999 / 2 ^ 7) = 7812500000000000"
  by (simp add: round_even_def Let_def)

lemma binary64_big: "binary64 (real_of_int 999999999999999999) = 1000000000000000000"
proof -
  have lo: "(2::real) powr real_of_int 59 \<le> real_of_int 999999999999999999"
    by simp
  have hi: "real_of_int 999999999999999999 < 2 powr (real_of_int 59 + 1)"
    by simp
  have u: "(2::real) powr (real_of_int 59 - 52) = 2 ^ 7"
    by simp
  have "binary64 (real_of_int 999999999999999999)
      = real_of_int (round_even (real_of_int 999999999999999999 / 2 powr (real_of_int 59 - 52)))
          * 2 powr (real_of_int 59 - 52)"
    by (rule binary64_at [OF _ lo hi]) simp
  then show ?thesis
    unfolding u round_even_big by simp
qed

lemma round_even_quot: "round_even ((10000000000000000::real) / 2 ^ 1) = 5000000000000000"
  by (simp add: round_even_def Let_def)

lemma binary64_quot: "binary64 (1000000000000000000 / 100) = 10000000000000000"
proof -
  have lo: "(2::real) powr real_of_int 53 \<le> 10000000000000000"
    by simp
  have hi: "(10000000000000000::real) < 2 powr (real_of_int 53 + 1)"
    by simp
  have u: "(2::real) powr (real_of_int 53 - 52) = 2 ^ 1"
    by simp
  have "binary64 10000000000000000
      = real_of_int (round_even (10000000000000000 / 2 powr (real_of_int 53 - 52)))
          * 2 powr (real_of_int 53 - 52)"
    by (rule binary64_at [OF _ lo hi]) simp
  then show ?thesis
    unfolding u round_even_quot by simp
qed

text \<open>
  Beyond the bound of the amended claim the rounding shows: the duration itself is
  rounded to a float and the count is one more than the quotient rounded down.
\<close>

lemma required_chunks_beyond:
  "required_chunks 999999999999999999 = 10000000000000000
   \<and> (999999999999999999::int) div 100 = 9999999999999999"
  unfolding required_chunks_def binary64_big chunk_duration_ms binary64_quot
  by (simp add: py_int_def)

lemma one_le_iff_pos: "(1 \<le> (a::int)) = (0 < a)"
  by linarith

lemma hundred_times:
  "(q::int) * 100 = spike \<Longrightarrow>
     real_of_int spike / binary64 (CHUNK_DURATION * 1000) = real_of_int q"
  unfolding chunk_duration_ms by auto

lemma ceiling_multiple:
  assumes "spike mod 100 = 0"
  shows "\<lceil>real_of_int spike / binary64 (CHUNK_DURATION * 1000)\<rceil> = spike div 100"
proof -
  from assms have "(spike div 100) * 100 = spike"
    by (simp only: div_mult_self_is_m mod_0_imp_dvd dvd_div_mult_self)
  then have "real_of_int spike / binary64 (CHUNK_DURATION * 1000) = real_of_int (spike div 100)"
    by (rule hundred_times)
  then show ?thesis by (simp only: ceiling_of_int)
qed

lemma div_hundred_least: "(1 \<le> spike div 100) = (100 \<le> (spike::int))"
proof -
  have "(0 < spike div 100) = (100 \<le> spike)"
    by (rule pos_imp_zdiv_pos_iff) simp
  then show ?thesis by (simp only: one_le_iff_pos)
qed

text \<open>
  C4, as the claim states it, does not hold: the count is not the ceiling of the quotient
  and can be 0.  A spike duration of 150 ms gives 1 chunk (the ceiling is 2), and one of
  50 ms gives 0 chunks.
\<close>

theorem required_chunks_ceiling_counterexample:
  "(0::int) < 150
   \<and> required_chunks 150 \<noteq> \<lceil>real_of_int 150 / binary64 (CHUNK_DURATION * 1000)\<rceil>
   \<and> (0::int) < 50 \<and> required_chunks 50 < 1"
  unfolding ceiling_of_150 required_chunks_150 required_chunks_50 by simp

text \<open>
  C4, amended.  For every spike duration from 0 to below \<open>2 ^ 52\<close> milliseconds the
  required chunk count is the quotient of the duration by the sub-chunk duration of
  100 ms, rounded down.  It is at least 1 exactly when the duration is at least 100 ms,
  and it equals the ceiling of the quotient when the duration is a multiple of 100 ms.
  (For longer durations the rounding of the float quotient can add one to the count.)
\<close>

theorem required_chunks_rounds_down:
  "0 \<le> spike \<Longrightarrow> spike < 2 ^ 52 \<Longrightarrow>
     binary64 (CHUNK_DURATION * 1000) = 100
     \<and> required_chunks spike = spike div 100
     \<and> (1 \<le> required_chunks spike) = (100 \<le> spike)
     \<and> (spike mod 100 = 0
          \<longrightarrow> required_chunks spike
                = \<lceil>real_of_int spike / binary64 (CHUNK_DURATION * 1000)\<rceil>)"
proof -
  assume nonneg: "0 \<le> spike" and bound: "spike < 2 ^ 52"
  have quot: "required_chunks spike = spike div 100"
    using nonneg bound by (rule required_chunks_nonneg)
  have ceil: "spike mod 100 = 0
      \<longrightarrow> spike div 100 = \<lceil>real_of_int spike / binary64 (CHUNK_DURATION * 1000)\<rceil>"
  proof
    assume "spike mod 100 = 0"
    then show "spike div 100 = \<lceil>real_of_int spike / binary64 (CHUNK_DURATION * 1000)\<rceil>"
      by (rule ceiling_multiple [symmetric])
  qed
  show ?thesis
    unfolding quot using chunk_duration_ms div_hundred_least [of spike] ceil
    by (intro conjI refl)
qed

theorem required_chunks_rounds_down_witness:
  "(0::int) \<le> 500 \<and> (500::int) < 2 ^ 52
   \<and> required_chunks 500 = 500 div 100 \<and> 1 \<le> required_chunks 500
   \<and> (500::int) mod 100 = 0
   \<and> required_chunks 500 = \<lceil>real_of_int 500 / binary64 (CHUNK_DURATION * 1000)\<rceil>"
proof -
  have h: "(0::int) \<le> 500" by simp
  have u: "(500::int) < 2 ^ 52" by simp
  have m: "(500::int) mod 100 = 0" by simp
  have l: "(100::int) \<le> 500" by simp
  note inst = required_chunks_rounds_down [OF h u, THEN conjunct2]
  from inst have a: "required_chunks 500 = 500 div 100" by (rule conjunct1)
  from inst have "(1 \<le> required_chunks 500) = ((100::int) \<le> 500)"
    by (rule conjunct1 [OF conjunct2])
  with l have b: "1 \<le> required_chunks 500" by (rule iffD2 [rotated])
  from inst have "(500::int) mod 100 = 0
      \<longrightarrow> required_chunks 500
            = \<lceil>real_of_int 500 / binary64 (CHUNK_DURATION * 1000)\<rceil>"
    by (rule conjunct2 [OF conjunct2])
  then have c: "required_chunks 500
      = \<lceil>real_of_int 500 / binary64 (CHUNK_DURATION * 1000)\<rceil>"
    using m by (rule mp)
  from h u a b m c show ?thesis by (intro conjI)
qed

lemma amplitude_to_db_zero: "amplitude_to_db (Fin 0) 1 = NegInf"
  by (simp add: amplitude_to_db_def)

lemma chunk_spl_silent: "chunk_rms chunk = Fin 0 \<Longrightarrow> chunk_spl chunk = NegInf"
  by (simp add: chunk_spl_cases)

lemma record_audio_at_silent:
  assumes "array_split (rows_of (recording c)) (length (rows_of (recording c)) div csize) = Some chunks"
    and "db_levels_loop chunks = []"
  shows "record_audio_at csize cfg c (w, disk) = ((w, disk), [])"
  using assms by (simp add: record_audio_at_unfold aggregate_def)

lemma record_audio_at_empty:
  "rows_of (recording c) = [] \<Longrightarrow> record_audio_at csize cfg c (w, disk) = ((w, disk), [Recording_error])"
  by (simp add: record_audio_at_unfold array_split_def)

lemma get_noise_level_empty: "to_mono data = [] \<Longrightarrow> get_noise_level data = NaN"
  by (simp add: get_noise_level_def np_mean_def amplitude_to_db_def)

lemma finite_values_nan: "NaN \<in> set xs \<Longrightarrow> finite_values xs = None"
  by (induction xs rule: finite_values.induct) auto

lemma get_noise_level_nan_sample: "NaN \<in> set (to_mono data) \<Longrightarrow> get_noise_level data = NaN"
  by (simp add: get_noise_level_def finite_values_nan amplitude_to_db_def)

lemma finite_values_zeros: "finite_values (replicate n (Fin 0)) = Some (replicate n 0)"
  by (induction n) simp_all

lemma get_noise_level_zeros:
  "to_mono data = replicate n (Fin 0) \<Longrightarrow> 0 < n \<Longrightarrow> get_noise_level data = NegInf"
  by (simp add: get_noise_level_def finite_values_zeros np_mean_def amplitude_to_db_def
      sum_list_replicate)

lemma monitor_iteration_nan:
  "get_noise_level (recording c) = NaN \<Longrightarrow>
     monitor_iteration threshold_db alert_interval c (m, disk) = ((m, disk), [])"
  by (simp add: monitor_iteration_unfold)

text \<open>
  C5, as the claim states it, does not hold for the minimum: a silent sub-chunk, whose
  level is \<open>-inf\<close>, does not take part in it.  For a block of one silent and one
  full-scale sub-chunk the minimum over all levels is \<open>-inf\<close>, but \<^verbatim>\<open>min_db\<close> is 90.
\<close>

theorem minimum_skips_silence_counterexample:
  "chunk_spl [[0]] = NegInf
   \<and> spec_min_level [[[0]], [[1]]] = Some NegInf
   \<and> aggregate (db_levels_loop [[[0]], [[1]]]) = Some (90, 90, 90)"
  by (simp add: chunk_spl_cases chunk_rms_single spec_min_level_def aggregate_def)

text \<open>
  C5, amended.  A sub-chunk with RMS 0 has the level \<open>-inf\<close> and is left out of
  \<^verbatim>\<open>db_levels\<close>, so it takes part in none of average, maximum and minimum: these are
  the same as for the block without its silent sub-chunks.  For a block of silent
  sub-chunks only, no aggregate is computed and \<^verbatim>\<open>record_audio\<close> ends without an
  error, leaving the window as it was.  All of \<^verbatim>\<open>db_levels\<close> are finite numbers.
\<close>

theorem silent_chunks_left_out:
  "amplitude_to_db (Fin 0) 1 = NegInf
   \<and> (chunk_rms chunk = Fin 0
        \<longrightarrow> chunk_spl chunk = NegInf
            \<and> aggregate (db_levels_loop (chunk # chunks)) = aggregate (db_levels_loop chunks))
   \<and> aggregate (db_levels_loop (filter (\<lambda>chunk. chunk_rms chunk \<noteq> Fin 0) chunks))
        = aggregate (db_levels_loop chunks)
   \<and> ((\<forall>chunk \<in> set chunks. chunk_rms chunk = Fin 0)
        \<longrightarrow> aggregate (db_levels_loop chunks) = None)
   \<and> (array_split (rows_of (recording c)) (length (rows_of (recording c)) div csize) = Some chunks
        \<and> (\<forall>chunk \<in> set chunks. chunk_rms chunk = Fin 0)
        \<longrightarrow> record_audio_at csize cfg c (w, disk) = ((w, disk), []))"
proof (intro conjI impI)
  show "amplitude_to_db (Fin 0) 1 = NegInf"
    by (rule amplitude_to_db_zero)
next
  assume "chunk_rms chunk = Fin 0"
  then show "chunk_spl chunk = NegInf"
    by (rule chunk_spl_silent)
next
  assume "chunk_rms chunk = Fin 0"
  then show "aggregate (db_levels_loop (chunk # chunks)) = aggregate (db_levels_loop chunks)"
    by (simp only: db_levels_loop_silent)
next
  show "aggregate (db_levels_loop (filter (\<lambda>chunk. chunk_rms chunk \<noteq> Fin 0) chunks))
          = aggregate (db_levels_loop chunks)"
    by (simp only: db_levels_loop_filter)
next
  assume "\<forall>chunk \<in> set chunks. chunk_rms chunk = Fin 0"
  then have "db_levels_loop chunks = []"
    by (rule db_levels_loop_all_silent)
  then show "aggregate (db_levels_loop chunks) = None"
    by (simp add: aggregate_def)
next
  assume a: "array_split (rows_of (recording c)) (length (rows_of (recording c)) div csize)
               = Some chunks
             \<and> (\<forall>chunk \<in> set chunks. chunk_rms chunk = Fin 0)"
  then have "db_levels_loop chunks = []"
    by (intro db_levels_loop_all_silent) (rule conjunct2)
  with a show "record_audio_at csize cfg c (w, disk) = ((w, disk), [])"
    by (intro record_audio_at_silent) (rule conjunct1)
qed

theorem silent_chunks_left_out_witness:
  "chunk_rms [[0]] = Fin 0
   \<and> chunk_spl [[0]] = NegInf
   \<and> aggregate (db_levels_loop [[[0]], [[0]]]) = None
   \<and> array_split (rows_of (recording silent_cycle))
        (length (rows_of (recording silent_cycle)) div 1) = Some [[[0]], [[0]]]
   \<and> record_audio_at 1 default_settings silent_cycle (window_init, {}) = ((window_init, {}), [])"
proof -
  have r: "chunk_rms [[0]] = Fin 0"
    by (simp add: chunk_rms_single)
  have all: "\<forall>chunk \<in> set [[[0]], [[0]]]. chunk_rms chunk = Fin 0"
    by (simp add: chunk_rms_single)
  have split: "array_split (rows_of (recording silent_cycle))
        (length (rows_of (recording silent_cycle)) div 1) = Some [[[0]], [[0]]]"
    by (simp add: silent_cycle_def array_split_def section_sizes_def)
  note inst = silent_chunks_left_out [of "[[0]]" "[[[0]], [[0]]]" silent_cycle 1 default_settings window_init "{}"]
  from inst r have s: "chunk_spl [[0]] = NegInf" by blast
  from inst all have n: "aggregate (db_levels_loop [[[0]], [[0]]]) = None" by blast
  from inst all split have e: "record_audio_at 1 default_settings silent_cycle (window_init, {}) = ((window_init, {}), [])"
    by blast
  from r s n split e show ?thesis by (intro conjI)
qed

lemma monitor_cycle_nan:
  "get_noise_level (recording c) = NaN \<Longrightarrow>
     monitor_cycle threshold_db alert_interval c (m, disk) = ((m, disk), [], [])"
  by (simp add: monitor_cycle_def)

text \<open>
  C8, as the claim states it, does not hold: for a block of zero samples, be it without
  frames or with frames that have no channel, \<^verbatim>\<open>get_noise_level\<close> returns \<open>nan\<close>, not
  the silent reading \<open>-inf\<close>.
\<close>

theorem empty_block_nan_counterexample:
  "get_noise_level (Array1 []) = NaN \<and> get_noise_level (Array2 []) = NaN
   \<and> get_noise_level (Array2 [[], []]) = NaN
   \<and> get_noise_level (Array1 []) \<noteq> NegInf"
  by (simp add: get_noise_level_empty get_noise_level_nan_sample mean_axis1_def np_mean_def)

text \<open>
  C8, amended.  For a block of zero samples (no frames, or frames without channels)
  \<^verbatim>\<open>get_noise_level\<close> raises nothing and returns \<open>nan\<close>; the reading then passes
  neither of the two threshold tests, so the cycle of the monitor changes nothing, emits
  nothing and posts nothing, and the loop goes on.  A block of zero-valued samples, at
  least one, gives the silent reading \<open>-inf\<close>.
\<close>

theorem empty_block_reading:
  "(to_mono (recording c) = [] \<or> NaN \<in> set (to_mono (recording c))
      \<longrightarrow> get_noise_level (recording c) = NaN
          \<and> monitor_cycle threshold_db alert_interval c (m, disk) = ((m, disk), [], []))
   \<and> (to_mono data = replicate n (Fin 0) \<and> 0 < n \<longrightarrow> get_noise_level data = NegInf)"
proof (intro conjI impI)
  assume e: "to_mono (recording c) = [] \<or> NaN \<in> set (to_mono (recording c))"
  then show n: "get_noise_level (recording c) = NaN"
    by (rule disjE) (rule get_noise_level_empty, assumption, rule get_noise_level_nan_sample)
  then show "monitor_cycle threshold_db alert_interval c (m, disk) = ((m, disk), [], [])"
    by (rule monitor_cycle_nan)
next
  assume z: "to_mono data = replicate n (Fin 0) \<and> 0 < n"
  show "get_noise_level data = NegInf"
    by (rule get_noise_level_zeros) (rule conjunct1 [OF z], rule conjunct2 [OF z])
qed

theorem empty_block_reading_witness:
  "to_mono (recording empty_cycle) = []
   \<and> get_noise_level (recording empty_cycle) = NaN
   \<and> monitor_cycle 30 600 empty_cycle (monitor_init, {}) = ((monitor_init, {}), [], [])
   \<and> NaN \<in> set (to_mono (recording no_channel_cycle))
   \<and> get_noise_level (recording no_channel_cycle) = NaN
   \<and> monitor_cycle 30 600 no_channel_cycle (monitor_high, {}) = ((monitor_high, {}), [], [])
   \<and> to_mono (Array1 [0, 0]) = replicate 2 (Fin 0) \<and> (0::nat) < 2
   \<and> get_noise_level (Array1 [0, 0]) = NegInf"
proof -
  have e: "to_mono (recording empty_cycle) = []"
    by (simp add: empty_cycle_def mean_axis1_def)
  have c: "NaN \<in> set (to_mono (recording no_channel_cycle))"
    by (simp add: no_channel_cycle_def mean_axis1_def np_mean_def)
  have z: "to_mono (Array1 [0, 0]) = replicate 2 (Fin 0)"
    by (simp add: numeral_2_eq_2)
  have p: "(0::nat) < 2"
    by simp
  note first = empty_block_reading [of empty_cycle 30 600 monitor_init "{}" "Array1 [0, 0]" 2]
  note second = empty_block_reading [of no_channel_cycle 30 600 monitor_high "{}" "Array1 [0, 0]" 2]
  from first e have a: "get_noise_level (recording empty_cycle) = NaN
      \<and> monitor_cycle 30 600 empty_cycle (monitor_init, {}) = ((monitor_init, {}), [], [])"
    by (simp only: simp_thms)
  from second c have b: "get_noise_level (recording no_channel_cycle) = NaN
      \<and> monitor_cycle 30 600 no_channel_cycle (monitor_high, {}) = ((monitor_high, {}), [], [])"
    by (simp only: simp_thms)
  from first z p have s: "get_noise_level (Array1 [0, 0]) = NegInf"
    by (simp only: simp_thms)
  from e a c b z p s show ?thesis by (simp only: simp_thms)
qed

section \<open>Properties of the dispatch and of the monitoring cycles\<close>

lemma replace_ext_fixed:
  "replace_ext s = s \<Longrightarrow> s \<noteq> pre @ ''.wav'' @ post"
proof (induction s arbitrary: pre rule: replace_ext.induct)
  case (1 a b c d rest)
  show ?case
  proof (cases "[a, b, c, d] = ''.wav''")
    case True
    with "1.prems" show ?thesis by (auto split: if_splits)
  next
    case False
    with "1.prems" have unchanged: "replace_ext (b # c # d # rest) = b # c # d # rest"
      by (auto split: if_splits)
    show ?thesis
    proof (cases pre)
      case Nil
      with False show ?thesis by auto
    next
      case (Cons p ps)
      from "1.IH"(2) [OF False unchanged, of ps] Cons show ?thesis by auto
    qed
  qed
qed (auto simp: append_eq_Cons_conv)

lemma replace_ext_wav: "replace_ext (pre @ ''.wav'') \<noteq> pre @ ''.wav''"
  using replace_ext_fixed [of "pre @ ''.wav''" pre "[]"] by auto

lemma float_le_not_gt: "float_le x t \<Longrightarrow> \<not> float_gt x t"
  by (cases x) auto

lemma remove_both_distinct:
  "wav \<in> disk \<Longrightarrow> ogg \<in> disk \<Longrightarrow> ogg \<noteq> wav \<Longrightarrow>
     remove_both wav ogg disk = (Returned, disk - {wav} - {ogg}, [RemoveFile wav, RemoveFile ogg])"
  by (simp add: remove_both_def os_remove_def)

lemma send_audio_status:
  assumes "path \<in> disk" and "replace_ext path \<noteq> path"
  shows "send_audio (Status code) path disk =
           (if code = 200
            then (Returned, insert (replace_ext path) disk - {path} - {replace_ext path},
                  [ReadFile path, WriteFile (replace_ext path), PostAudio (replace_ext path),
                   RemoveFile path, RemoveFile (replace_ext path)])
            else (Returned, insert (replace_ext path) disk,
                  [ReadFile path, WriteFile (replace_ext path), PostAudio (replace_ext path)]))"
  using assms by (simp add: send_audio_def Let_def remove_both_distinct)

lemma send_audio_no_connection:
  "path \<in> disk \<Longrightarrow>
     send_audio ConnectionError path disk =
       (Raised, insert (replace_ext path) disk,
        [ReadFile path, WriteFile (replace_ext path), PostAudio (replace_ext path)])"
  by (simp add: send_audio_def Let_def)

lemma send_telegram_alert_recovery:
  "send_telegram_alert (Status code) ap None disk = (Returned, disk, [PostMessage])"
  "send_telegram_alert ConnectionError ap path disk = (Raised, disk, [PostMessage])"
  by (simp_all add: send_telegram_alert_def)

lemma send_telegram_alert_outcome:
  assumes "path = pre @ ''.wav''" and "path \<in> disk"
  shows "fst (send_telegram_alert mp ap (Some path) disk)
           = (if mp = ConnectionError \<or> ap = ConnectionError then Raised else Returned)"
proof -
  from assms(1) have ne: "path \<noteq> []" by simp
  from assms(1) have ch: "replace_ext path \<noteq> path" by (simp only: replace_ext_wav not_False_eq_True)
  show ?thesis
  proof (cases mp)
    case ConnectionError
    then show ?thesis by (simp add: send_telegram_alert_def)
  next
    case (Status a)
    show ?thesis
    proof (cases ap)
      case ConnectionError
      with Status ne assms(2) show ?thesis
        by (simp add: send_telegram_alert_def send_audio_no_connection)
    next
      case (Status b)
      with \<open>mp = Status a\<close> ne assms(2) ch show ?thesis
        by (simp add: send_telegram_alert_def send_audio_status)
    qed
  qed
qed

lemma monitor_iteration_alert:
  assumes normal: "noise_state m = NOISE_NORMAL"
    and loud: "float_gt (float_add (get_noise_level (recording c)) 90) threshold_db"
    and elapsed: "alert_interval \<le> current_time c - last_alert_time m"
  shows "fst (fst (monitor_iteration threshold_db alert_interval c (m, disk)))
           = (if message_post c = ConnectionError \<or> audio_post c = ConnectionError then m
              else m\<lparr>last_alert_time := current_time c, noise_state := NOISE_HIGH\<rparr>)"
    and "snd (monitor_iteration threshold_db alert_interval c (m, disk))
           = (if message_post c = ConnectionError \<or> audio_post c = ConnectionError
              then [Alert_error] else [Triggered])"
proof -
  define path where "path = ''noise_alert_'' @ timestamp c @ ''.wav''"
  obtain r d tr where
    P: "send_telegram_alert (message_post c) (audio_post c) (Some path) (insert path disk) = (r, d, tr)"
    by (cases "send_telegram_alert (message_post c) (audio_post c) (Some path) (insert path disk)")
  have "path = (''noise_alert_'' @ timestamp c) @ ''.wav''"
    by (simp add: path_def)
  then have "fst (send_telegram_alert (message_post c) (audio_post c) (Some path) (insert path disk))
      = (if message_post c = ConnectionError \<or> audio_post c = ConnectionError
         then Raised else Returned)"
    by (rule send_telegram_alert_outcome) simp
  with P have r: "r = (if message_post c = ConnectionError \<or> audio_post c = ConnectionError
         then Raised else Returned)"
    by simp
  have step: "monitor_iteration threshold_db alert_interval c (m, disk) =
      (case (r, d, tr) of
         (Returned, disk2, tr) \<Rightarrow>
           ((m\<lparr>last_alert_time := current_time c, noise_state := NOISE_HIGH\<rparr>, disk2), [Triggered])
       | (Raised, disk2, tr) \<Rightarrow> ((m, disk2), [Alert_error]))"
    using normal loud elapsed P [unfolded path_def]
    by (simp add: monitor_iteration_unfold Let_def)
  show "fst (fst (monitor_iteration threshold_db alert_interval c (m, disk)))
           = (if message_post c = ConnectionError \<or> audio_post c = ConnectionError then m
              else m\<lparr>last_alert_time := current_time c, noise_state := NOISE_HIGH\<rparr>)"
    unfolding step r by simp
  show "snd (monitor_iteration threshold_db alert_interval c (m, disk))
           = (if message_post c = ConnectionError \<or> audio_post c = ConnectionError
              then [Alert_error] else [Triggered])"
    unfolding step r by simp
qed

lemma monitor_iteration_recovery:
  assumes "noise_state m = NOISE_HIGH"
    and "float_le (float_add (get_noise_level (recording c)) 90) threshold_db"
  shows "monitor_iteration threshold_db alert_interval c (m, disk) =
           (case message_post c of
              ConnectionError \<Rightarrow> ((m, disk), [Crashed])
            | Status code \<Rightarrow> ((m\<lparr>noise_state := NOISE_NORMAL\<rparr>, disk), [Recovered]))"
  using assms
  by (simp add: monitor_iteration_unfold Let_def float_le_not_gt send_telegram_alert_recovery
      split: http.splits)

lemma monitor_iteration_high_loud:
  assumes "noise_state m = NOISE_HIGH"
    and "\<not> float_le (float_add (get_noise_level (recording c)) 90) threshold_db"
  shows "monitor_iteration threshold_db alert_interval c (m, disk) = ((m, disk), [])"
  using assms by (simp add: monitor_iteration_unfold Let_def)

lemma monitor_iteration_normal_idle:
  assumes "noise_state m = NOISE_NORMAL"
    and "\<not> (float_gt (float_add (get_noise_level (recording c)) 90) threshold_db
            \<and> alert_interval \<le> current_time c - last_alert_time m)"
  shows "monitor_iteration threshold_db alert_interval c (m, disk) = ((m, disk), [])"
proof -
  from assms(2) have "(float_gt (float_add (get_noise_level (recording c)) 90) threshold_db
      \<and> alert_interval \<le> current_time c - last_alert_time m) = False"
    by simp
  with assms(1) show ?thesis
    by (simp only: monitor_iteration_unfold Let_def prod.case if_False nstate.distinct
        simp_thms)
qed

lemma loud_cycle_level: "float_add (get_noise_level (recording (loud_cycle t mp ap))) 90 = Fin 90"
  by (simp add: loud_cycle_def get_noise_level_def np_mean_def amplitude_to_db_def)

lemma quiet_cycle_level: "float_add (get_noise_level (recording (quiet_cycle t mp))) 90 = NegInf"
  by (simp add: quiet_cycle_def get_noise_level_def np_mean_def amplitude_to_db_def)











lemma monitor_iteration_cases:
  obtains (idle) "monitor_iteration threshold_db alert_interval c (m, disk) = ((m, disk), [])"
  | (triggered) d where "noise_state m = NOISE_NORMAL"
      and "alert_interval \<le> current_time c - last_alert_time m"
      and "monitor_iteration threshold_db alert_interval c (m, disk)
             = ((m\<lparr>last_alert_time := current_time c, noise_state := NOISE_HIGH\<rparr>, d), [Triggered])"
  | (failed) d where "noise_state m = NOISE_NORMAL"
      and "monitor_iteration threshold_db alert_interval c (m, disk) = ((m, d), [Alert_error])"
  | (recovered) "noise_state m = NOISE_HIGH"
      and "monitor_iteration threshold_db alert_interval c (m, disk)
             = ((m\<lparr>noise_state := NOISE_NORMAL\<rparr>, disk), [Recovered])"
  | (crashed) "noise_state m = NOISE_HIGH"
      and "monitor_iteration threshold_db alert_interval c (m, disk) = ((m, disk), [Crashed])"
proof (cases "noise_state m")
  case NOISE_NORMAL
  show ?thesis
  proof (cases "float_gt (float_add (get_noise_level (recording c)) 90) threshold_db
            \<and> alert_interval \<le> current_time c - last_alert_time m")
    case False
    with NOISE_NORMAL have "monitor_iteration threshold_db alert_interval c (m, disk) = ((m, disk), [])"
      by (rule monitor_iteration_normal_idle)
    then show ?thesis by (rule idle)
  next
    case True
    then have loud: "float_gt (float_add (get_noise_level (recording c)) 90) threshold_db"
      and elapsed: "alert_interval \<le> current_time c - last_alert_time m"
      by (rule conjunct1, rule conjunct2)
    note st = monitor_iteration_alert [OF NOISE_NORMAL loud elapsed, of disk]
    obtain m' d evs where it: "monitor_iteration threshold_db alert_interval c (m, disk) = ((m', d), evs)"
      by (metis surj_pair)
    show ?thesis
    proof (cases "message_post c = ConnectionError \<or> audio_post c = ConnectionError")
      case True
      with st it have "monitor_iteration threshold_db alert_interval c (m, disk) = ((m, d), [Alert_error])"
        by simp
      with NOISE_NORMAL show ?thesis by (rule failed)
    next
      case False
      with st it have "monitor_iteration threshold_db alert_interval c (m, disk)
             = ((m\<lparr>last_alert_time := current_time c, noise_state := NOISE_HIGH\<rparr>, d), [Triggered])"
        by simp
      with NOISE_NORMAL elapsed show ?thesis by (rule triggered)
    qed
  qed
next
  case NOISE_HIGH
  show ?thesis
  proof (cases "float_le (float_add (get_noise_level (recording c)) 90) threshold_db")
    case False
    with NOISE_HIGH have "monitor_iteration threshold_db alert_interval c (m, disk) = ((m, disk), [])"
      by (rule monitor_iteration_high_loud)
    then show ?thesis by (rule idle)
  next
    case True
    note st = monitor_iteration_recovery [OF NOISE_HIGH True, of alert_interval disk]
    show ?thesis
    proof (cases "message_post c")
      case ConnectionError
      with st have "monitor_iteration threshold_db alert_interval c (m, disk) = ((m, disk), [Crashed])"
        by simp
      with NOISE_HIGH show ?thesis by (rule crashed)
    next
      case (Status code)
      with st have "monitor_iteration threshold_db alert_interval c (m, disk)
             = ((m\<lparr>noise_state := NOISE_NORMAL\<rparr>, disk), [Recovered])"
        by simp
      with NOISE_HIGH show ?thesis by (rule recovered)
    qed
  qed
qed

lemma monitor_run_alternating:
  "alternating (noise_state m = NOISE_HIGH)
     (map snd (monitor_run threshold_db alert_interval (m, disk) cs))"
proof (induction cs arbitrary: m disk)
  case Nil
  show ?case by simp
next
  case (Cons c cs)
  show ?case
  proof (cases rule: monitor_iteration_cases [of threshold_db alert_interval c m disk])
    case idle
    with Cons.IH [of m disk] show ?thesis by simp
  next
    case (triggered d)
    with Cons.IH [of "m\<lparr>last_alert_time := current_time c, noise_state := NOISE_HIGH\<rparr>" d]
    show ?thesis by simp
  next
    case (failed d)
    with Cons.IH [of m d] show ?thesis by simp
  next
    case recovered
    with Cons.IH [of "m\<lparr>noise_state := NOISE_NORMAL\<rparr>" disk] show ?thesis by simp
  next
    case crashed
    then show ?thesis by simp
  qed
qed

lemma alternating_high_next:
  "alternating True (b @ Triggered # c) \<Longrightarrow> Recovered \<in> set b"
proof (induction b)
  case Nil
  then show ?case by simp
next
  case (Cons e b)
  then show ?case by (cases e) auto
qed

lemma alternating_separated:
  "alternating high (a @ Triggered # b @ Triggered # c) \<Longrightarrow> Recovered \<in> set b"
proof (induction a arbitrary: high)
  case Nil
  then show ?case by (auto dest: alternating_high_next)
next
  case (Cons e a)
  then show ?case by (cases e) auto
qed

lemma monitor_iteration_high_events:
  assumes "noise_state m = NOISE_HIGH"
  shows "Triggered \<notin> set (snd (monitor_iteration threshold_db alert_interval c (m, disk)))"
    and "Alert_error \<notin> set (snd (monitor_iteration threshold_db alert_interval c (m, disk)))"
  using assms
  by (cases rule: monitor_iteration_cases [of threshold_db alert_interval c m disk]; simp)+

lemma loud_step_example:
  "monitor_iteration 30 600 (loud_cycle t (Status 200) (Status 200))
     (\<lparr>last_alert_time = l, noise_state = NOISE_NORMAL\<rparr>, {})
   = (if 600 \<le> t - l then ((\<lparr>last_alert_time = t, noise_state = NOISE_HIGH\<rparr>, {}), [Triggered])
      else ((\<lparr>last_alert_time = l, noise_state = NOISE_NORMAL\<rparr>, {}), []))"
  by (simp add: monitor_iteration_unfold loud_cycle_level Let_def)
    (auto simp add: loud_cycle_def send_telegram_alert_def send_audio_def remove_both_def os_remove_def Let_def)


lemma quiet_step_high_example:
  "monitor_iteration 30 600 (quiet_cycle t (Status 200))
     (\<lparr>last_alert_time = l, noise_state = NOISE_HIGH\<rparr>, disk)
   = ((\<lparr>last_alert_time = l, noise_state = NOISE_NORMAL\<rparr>, disk), [Recovered])"
proof -
  have "monitor_iteration 30 600 (quiet_cycle t (Status 200))
     (\<lparr>last_alert_time = l, noise_state = NOISE_HIGH\<rparr>, disk)
     = (case message_post (quiet_cycle t (Status 200)) of
          ConnectionError \<Rightarrow> ((\<lparr>last_alert_time = l, noise_state = NOISE_HIGH\<rparr>, disk), [Crashed])
        | Status code \<Rightarrow>
            ((\<lparr>last_alert_time = l, noise_state = NOISE_HIGH\<rparr>\<lparr>noise_state := NOISE_NORMAL\<rparr>, disk),
             [Recovered]))"
    by (rule monitor_iteration_recovery) (simp_all add: quiet_cycle_level)
  then show ?thesis by (simp add: quiet_cycle_def)
qed

lemma recovered_run_example:
  "monitor_run 30 600 (monitor_init, {})
     [loud_cycle 1000 (Status 200) (Status 200), quiet_cycle 1001 (Status 200),
      loud_cycle 1700 (Status 200) (Status 200)]
   = [(1000, Triggered), (1001, Recovered), (1700, Triggered)]"
  by (simp add: monitor_init_def loud_step_example quiet_step_high_example)
    (simp add: loud_cycle_def quiet_cycle_def)


text \<open>
  C10.  While the state of the command-line monitor is High, a cycle emits no
  \<open>Triggered\<close> alert and starts no alert attempt, whatever the reading, the clock and
  the network do.  Hence in every run any two \<open>Triggered\<close> alerts have a \<open>Recovered\<close>
  notice between them.
\<close>

theorem no_trigger_while_high:
  "(noise_state m = NOISE_HIGH
      \<longrightarrow> Triggered \<notin> set (snd (monitor_iteration threshold_db alert_interval c (m, disk)))
          \<and> Alert_error \<notin> set (snd (monitor_iteration threshold_db alert_interval c (m, disk))))
   \<and> (map snd (monitor_run threshold_db alert_interval (m0, disk0) cs)
         = before @ Triggered # between @ Triggered # after
      \<longrightarrow> Recovered \<in> set between)"
proof (intro conjI impI)
  assume "noise_state m = NOISE_HIGH"
  then show "Triggered \<notin> set (snd (monitor_iteration threshold_db alert_interval c (m, disk)))"
    by (rule monitor_iteration_high_events)
next
  assume "noise_state m = NOISE_HIGH"
  then show "Alert_error \<notin> set (snd (monitor_iteration threshold_db alert_interval c (m, disk)))"
    by (rule monitor_iteration_high_events)
next
  assume run: "map snd (monitor_run threshold_db alert_interval (m0, disk0) cs)
         = before @ Triggered # between @ Triggered # after"
  have "alternating (noise_state m0 = NOISE_HIGH)
          (map snd (monitor_run threshold_db alert_interval (m0, disk0) cs))"
    by (rule monitor_run_alternating)
  with run have "alternating (noise_state m0 = NOISE_HIGH)
          (before @ Triggered # between @ Triggered # after)"
    by (simp only:)
  then show "Recovered \<in> set between"
    by (rule alternating_separated)
qed

theorem no_trigger_while_high_witness:
  "noise_state monitor_high = NOISE_HIGH
   \<and> float_gt (float_add (get_noise_level (recording (loud_cycle 2000 (Status 200) (Status 200)))) 90) 30
   \<and> 600 \<le> current_time (loud_cycle 2000 (Status 200) (Status 200)) - last_alert_time monitor_high
   \<and> Triggered \<notin> set (snd (monitor_iteration 30 600 (loud_cycle 2000 (Status 200) (Status 200))
                               (monitor_high, {})))
   \<and> map snd (monitor_run 30 600 (monitor_init, {})
        [loud_cycle 1000 (Status 200) (Status 200), quiet_cycle 1001 (Status 200),
         loud_cycle 1700 (Status 200) (Status 200)])
       = [] @ Triggered # [Recovered] @ Triggered # []
   \<and> Recovered \<in> set [Recovered]"
proof -
  have high: "noise_state monitor_high = NOISE_HIGH"
    by (simp add: monitor_high_def)
  have loud: "float_gt (float_add (get_noise_level (recording (loud_cycle 2000 (Status 200) (Status 200)))) 90) 30"
    by (simp add: loud_cycle_level)
  have elapsed: "600 \<le> current_time (loud_cycle 2000 (Status 200) (Status 200))
                        - last_alert_time monitor_high"
    by (simp add: loud_cycle_def monitor_high_def)
  have run: "map snd (monitor_run 30 600 (monitor_init, {})
        [loud_cycle 1000 (Status 200) (Status 200), quiet_cycle 1001 (Status 200),
         loud_cycle 1700 (Status 200) (Status 200)])
       = [] @ Triggered # [Recovered] @ Triggered # []"
    unfolding recovered_run_example by simp
  note inst = no_trigger_while_high [of monitor_high 30 600
      "loud_cycle 2000 (Status 200) (Status 200)" "{}" monitor_init "{}"
      "[loud_cycle 1000 (Status 200) (Status 200), quiet_cycle 1001 (Status 200),
        loud_cycle 1700 (Status 200) (Status 200)]" "[]" "[Recovered]" "[]"]
  from inst high have a: "Triggered \<notin> set (snd (monitor_iteration 30 600
      (loud_cycle 2000 (Status 200) (Status 200)) (monitor_high, {})))"
    by (simp only: simp_thms)
  from inst run have b: "Recovered \<in> set [Recovered]"
    by (simp only: simp_thms)
  from high loud elapsed a run b show ?thesis by (simp only: simp_thms)
qed









lemma triggered_times_simps:
  "triggered_times [] = []"
  "triggered_times ((t, Triggered) # timeline) = t # triggered_times timeline"
  "e \<noteq> Triggered \<Longrightarrow> triggered_times ((t, e) # timeline) = triggered_times timeline"
  by (simp_all add: triggered_times_def)



















end
